theory Spec2Isabelle
  imports Complex_Main "HOL-Library.Word"
begin

section \<open>The mini printf of chprintf.c\<close>

text \<open>
  A shallow embedding of \<^verbatim>\<open>src/chibios/os/hal/lib/streams/chprintf.c\<close>.

  Platform facts the C text leaves to the implementation are fixed to those of the
  32-bit targets the HAL is built for: \<^verbatim>\<open>int\<close>, \<^verbatim>\<open>long\<close>, \<^verbatim>\<open>unsigned\<close> and
  \<^verbatim>\<open>unsigned long\<close> are 32 bits wide (the value \<^verbatim>\<open>MAX_FILLER 11\<close> is the number of octal
  digits of a 32-bit word), plain \<^verbatim>\<open>char\<close> is an unsigned byte, and \<^verbatim>\<open>double\<close> is IEEE-754
  binary64 with round-to-nearest-even. Signed arithmetic that overflows wraps around.

  Everything the C text leaves undefined is a value of \<open>error\<close>: a read past the
  terminator of the format string, a write or read outside the working buffer, a read of
  a buffer cell never written, an index outside the table of powers of ten, a missing or
  ill-typed variadic argument, a conversion of a double that does not fit its integer
  type, and a loop that never ends.
\<close>

datatype error =
    FormatOverrun
  | BadArgument
  | BufferOverflow
  | UninitialisedRead
  | TableOverrun
  | DivisionByZero
  | ConversionRange
  | NonTermination

subsection \<open>Characters and the working buffer\<close>

definition NUL :: char where
  "NUL = CHR 0x00"

definition ord :: "char \<Rightarrow> int" where
  "ord c = of_char c"

definition char_to_long :: "char \<Rightarrow> 32 word" where
  "char_to_long c = word_of_int (ord c)"

text \<open>Storing an \<^verbatim>\<open>int\<close> into a \<^verbatim>\<open>char\<close> keeps its low eight bits.\<close>

definition long_to_char :: "32 word \<Rightarrow> char" where
  "long_to_char w = char_of (uint w)"

definition MAX_FILLER :: int where
  "MAX_FILLER = 11"

definition FLOAT_PRECISION :: nat where
  "FLOAT_PRECISION = 9"

text \<open>
  The working buffer \<^verbatim>\<open>tmpbuf\<close> is a list of cells and a pointer into it is an index. A
  cell is \<open>None\<close> until the call stores a byte in it: the array is a local variable without
  initialiser, and what an earlier call left on the stack is not a value the program may
  read. \<open>poke\<close> is the store \<^verbatim>\<open>*q = c\<close> and \<open>peek\<close> the load \<^verbatim>\<open>*q\<close>; both fail outside the
  buffer's declared capacity, and the load fails on a cell never stored to.
\<close>

type_synonym buffer = "char option list"

definition poke :: "buffer \<Rightarrow> int \<Rightarrow> char \<Rightarrow> error + buffer" where
  "poke buf q c =
     (if 0 \<le> q \<and> q < int (length buf) then Inr (buf[nat q := Some c])
      else Inl BufferOverflow)"

definition peek :: "buffer \<Rightarrow> int \<Rightarrow> error + char" where
  "peek buf q =
     (if 0 \<le> q \<and> q < int (length buf)
      then (case buf ! nat q of None \<Rightarrow> Inl UninitialisedRead | Some c \<Rightarrow> Inr c)
      else Inl BufferOverflow)"

subsection \<open>The integer renderer\<close>

text \<open>
  The first \<^verbatim>\<open>do\<close> loop of \<^verbatim>\<open>long_to_string_with_divisor\<close>. With a 32-bit \<^verbatim>\<open>long\<close> and an
  \<^verbatim>\<open>unsigned\<close> radix, \<^verbatim>\<open>l % radix\<close>, \<^verbatim>\<open>l /= radix\<close> and \<^verbatim>\<open>ll /= radix\<close> are unsigned
  operations. It returns the buffer and the final \<^verbatim>\<open>q\<close>.
\<close>

function digit_loop ::
  "buffer \<Rightarrow> int \<Rightarrow> 32 word \<Rightarrow> 32 word \<Rightarrow> 32 word \<Rightarrow> error + (buffer \<times> int)" where
  "digit_loop buf q l ll radix =
     (if radix = 0 then Inl DivisionByZero
      else
        let i = l mod radix + char_to_long CHR ''0'';
            i = (if sint (char_to_long CHR ''9'') < sint i
                 then i + (char_to_long CHR ''A'' - char_to_long CHR ''0'' - 10) else i);
            q = q - 1
        in case poke buf q (long_to_char i) of
             Inl e \<Rightarrow> Inl e
           | Inr buf \<Rightarrow>
               let l = l div radix; ll = ll div radix
               in if ll \<noteq> 0 then digit_loop buf q l ll radix else Inr (buf, q))"
  by pat_completeness auto
termination
  by (relation "measure (\<lambda>(buf, q, l, ll, radix). nat q)")
     (auto simp: poke_def split: if_splits)

text \<open>The second loop, \<^verbatim>\<open>do *p++ = *q++; while (--i);\<close>. It returns the final \<^verbatim>\<open>p\<close>.\<close>

function copy_loop :: "buffer \<Rightarrow> int \<Rightarrow> int \<Rightarrow> 32 word \<Rightarrow> error + (buffer \<times> int)" where
  "copy_loop buf p q i =
     (case peek buf q of
        Inl e \<Rightarrow> Inl e
      | Inr c \<Rightarrow>
          (case poke buf p c of
             Inl e \<Rightarrow> Inl e
           | Inr buf' \<Rightarrow>
               if i - 1 \<noteq> 0 then copy_loop buf' (p + 1) (q + 1) (i - 1)
               else Inr (buf', p + 1)))"
  by pat_completeness auto
termination
  by (relation "measure (\<lambda>(buf, p, q, i). nat (int (length buf) - q))")
     (auto simp: poke_def peek_def split: if_splits)

definition long_to_string_with_divisor ::
  "buffer \<Rightarrow> int \<Rightarrow> 32 word \<Rightarrow> 32 word \<Rightarrow> 32 word \<Rightarrow> error + (buffer \<times> int)" where
  "long_to_string_with_divisor buf p num radix divisor =
     (let l = num;
          ll = (if divisor = 0 then num else divisor);
          q = p + MAX_FILLER
      in case digit_loop buf q l ll radix of
           Inl e \<Rightarrow> Inl e
         | Inr (buf, q) \<Rightarrow> copy_loop buf p q (of_int (p + MAX_FILLER - q)))"

definition ch_ltoa :: "buffer \<Rightarrow> int \<Rightarrow> 32 word \<Rightarrow> 32 word \<Rightarrow> error + (buffer \<times> int)" where
  "ch_ltoa buf p num radix = long_to_string_with_divisor buf p num radix 0"

subsection \<open>Doubles\<close>

text \<open>
  A \<^verbatim>\<open>double\<close> is a NaN, an infinity with its sign (\<open>True\<close> is negative) or a finite
  value, held as the rational it denotes. The two zeros are one value: no operation of
  the program tells them apart. Every arithmetic result is rounded to the nearest
  binary64 value, ties to even, by \<open>round_to_double\<close>.
\<close>

datatype double = Finite rat | Infinity bool | NaN

function bit_length :: "int \<Rightarrow> int" where
  "bit_length n = (if n \<le> 0 then 0 else 1 + bit_length (n div 2))"
  by pat_completeness auto
termination
  by (relation "measure nat") auto

definition pow2 :: "int \<Rightarrow> rat" where
  "pow2 k = (if 0 \<le> k then 2 ^ nat k else 1 / 2 ^ nat (- k))"

text \<open>The binary exponent \<open>\<lfloor>log\<^sub>2 x\<rfloor>\<close> of a positive rational.\<close>

definition binary_exponent :: "rat \<Rightarrow> int" where
  "binary_exponent x =
     (let (a, b) = quotient_of x;
          d = bit_length a - bit_length b
      in if pow2 d \<le> x then d else d - 1)"

definition round_to_double :: "rat \<Rightarrow> double" where
  "round_to_double x =
     (if x = 0 then Finite 0
      else
        let a = \<bar>x\<bar>;
            e = max (binary_exponent a) (- 1022);
            ulp = pow2 (e - 52);
            q = a / ulp;
            n = \<lfloor>q\<rfloor>;
            r = q - of_int n;
            m = (if r < 1 / 2 then n
                 else if 1 / 2 < r then n + 1
                 else if even n then n else n + 1);
            y = of_int m * ulp
        in if 1024 \<le> e \<or> (e = 1023 \<and> m = 2 ^ 53) then Infinity (x < 0)
           else Finite (if x < 0 then - y else y))"

fun dmul :: "double \<Rightarrow> double \<Rightarrow> double" where
  "dmul (Finite x) (Finite y) = round_to_double (x * y)"
| "dmul (Infinity s) (Finite y) = (if y = 0 then NaN else Infinity (s \<noteq> (y < 0)))"
| "dmul (Finite x) (Infinity t) = (if x = 0 then NaN else Infinity ((x < 0) \<noteq> t))"
| "dmul (Infinity s) (Infinity t) = Infinity (s \<noteq> t)"
| "dmul _ _ = NaN"

text \<open>The program divides by the constant \<^verbatim>\<open>10.0\<close> only.\<close>

fun ddiv :: "double \<Rightarrow> double \<Rightarrow> double" where
  "ddiv (Finite x) (Finite y) =
     (if y = 0 then (if x = 0 then NaN else Infinity (x < 0)) else round_to_double (x / y))"
| "ddiv (Infinity s) (Finite y) = Infinity (s \<noteq> (y < 0))"
| "ddiv (Finite x) (Infinity t) = Finite 0"
| "ddiv _ _ = NaN"

fun dsub :: "double \<Rightarrow> double \<Rightarrow> double" where
  "dsub (Finite x) (Finite y) = round_to_double (x - y)"
| "dsub (Infinity s) (Finite y) = Infinity s"
| "dsub (Finite x) (Infinity t) = Infinity (\<not> t)"
| "dsub (Infinity s) (Infinity t) = (if s = t then NaN else Infinity s)"
| "dsub _ _ = NaN"

fun dneg :: "double \<Rightarrow> double" where
  "dneg (Finite x) = Finite (- x)"
| "dneg (Infinity s) = Infinity (\<not> s)"
| "dneg NaN = NaN"

fun dless :: "double \<Rightarrow> double \<Rightarrow> bool" where
  "dless (Finite x) (Finite y) = (x < y)"
| "dless (Finite x) (Infinity t) = (\<not> t)"
| "dless (Infinity s) (Finite y) = s"
| "dless (Infinity s) (Infinity t) = (s \<and> \<not> t)"
| "dless _ _ = False"

fun dgreater_eq :: "double \<Rightarrow> double \<Rightarrow> bool" where
  "dgreater_eq (Finite x) (Finite y) = (y \<le> x)"
| "dgreater_eq (Finite x) (Infinity t) = t"
| "dgreater_eq (Infinity s) (Finite y) = (\<not> s)"
| "dgreater_eq (Infinity s) (Infinity t) = (\<not> s \<or> t)"
| "dgreater_eq _ _ = False"

fun isnan :: "double \<Rightarrow> bool" where
  "isnan NaN = True"
| "isnan _ = False"

fun isinf :: "double \<Rightarrow> bool" where
  "isinf (Infinity s) = True"
| "isinf _ = False"

text \<open>Conversions between \<^verbatim>\<open>double\<close> and the 32-bit integers. Every 32-bit integer is a
  binary64 value; the cast of a double to \<^verbatim>\<open>int\<close> or \<^verbatim>\<open>long\<close> drops the fraction and is
  undefined outside the integer's range.\<close>

definition double_of_long :: "32 word \<Rightarrow> double" where
  "double_of_long w = Finite (of_int (sint w))"

definition double_of_ulong :: "32 word \<Rightarrow> double" where
  "double_of_ulong w = Finite (of_int (uint w))"

fun long_of_double :: "double \<Rightarrow> error + 32 word" where
  "long_of_double (Finite x) =
     (let t = (if 0 \<le> x then \<lfloor>x\<rfloor> else - \<lfloor>- x\<rfloor>)
      in if - (2 ^ 31) \<le> t \<and> t < 2 ^ 31 then Inr (word_of_int t) else Inl ConversionRange)"
| "long_of_double _ = Inl ConversionRange"

subsection \<open>The float renderer\<close>

definition pow10 :: "32 word list" where
  "pow10 = [10, 100, 1000, 10000, 100000, 1000000, 10000000, 100000000, 1000000000]"

text \<open>The load \<^verbatim>\<open>pow10[i]\<close> with an \<^verbatim>\<open>unsigned long\<close> index.\<close>

definition pow10_at :: "32 word \<Rightarrow> error + 32 word" where
  "pow10_at i =
     (if uint i < int (length pow10) then Inr (pow10 ! nat (uint i)) else Inl TableOverrun)"

text \<open>
  The two normalisation loops of \<^verbatim>\<open>ftoa\<close>. The second never ends on a negative value, so
  both are partial functions: \<open>None\<close> is a loop that does not return.
\<close>

partial_function (option) scale_down :: "double \<Rightarrow> 32 word \<Rightarrow> (double \<times> 32 word) option" where
  "scale_down num E =
     (if dgreater_eq num (Finite 10) then scale_down (ddiv num (Finite 10)) (E + 1)
      else Some (num, E))"

partial_function (option) scale_up :: "double \<Rightarrow> 32 word \<Rightarrow> (double \<times> 32 word) option" where
  "scale_up num E =
     (if dless num (Finite 1) then scale_up (dmul num (Finite 10)) (E - 1)
      else Some (num, E))"

declare scale_down.simps [code]
declare scale_up.simps [code]

definition normalise :: "double \<Rightarrow> (double \<times> 32 word) option" where
  "normalise num =
     (if num \<noteq> Finite 0
      then (case scale_down num 0 of None \<Rightarrow> None | Some (num, E) \<Rightarrow> scale_up num E)
      else Some (num, 0))"

text \<open>The plain-notation \<^verbatim>\<open>for\<close> loop.\<close>

function plain_loop ::
  "buffer \<Rightarrow> int \<Rightarrow> double \<Rightarrow> 32 word \<Rightarrow> 32 word \<Rightarrow> error + (buffer \<times> int)" where
  "plain_loop buf p num E precision =
     (if 0 < precision then
        (case long_of_double num of
           Inl e \<Rightarrow> Inl e
         | Inr d \<Rightarrow>
             (case poke buf p (long_to_char (char_to_long CHR ''0'' + d)) of
                Inl e \<Rightarrow> Inl e
              | Inr buf \<Rightarrow>
                  (case (if E = 0 \<and> 1 < precision
                         then (case poke buf (p + 1) CHR ''.'' of
                                 Inl e \<Rightarrow> Inl e | Inr buf \<Rightarrow> Inr (buf, p + 2))
                         else Inr (buf, p + 1)) of
                     Inl e \<Rightarrow> Inl e
                   | Inr (buf, p) \<Rightarrow>
                       let num = dsub num (double_of_long d);
                           num = dmul num (Finite 10)
                       in plain_loop buf p num (E - 1) (precision - 1))))
      else Inr (buf, p))"
  by pat_completeness auto
termination
  by (relation "measure (\<lambda>(buf, p, num, E, precision). unat precision)")
     (auto simp: unat_minus_one word_greater_zero_iff unat_gt_0)

text \<open>Consecutive stores \<^verbatim>\<open>*p++ = c\<close>.\<close>

fun pokes :: "buffer \<Rightarrow> int \<Rightarrow> string \<Rightarrow> error + (buffer \<times> int)" where
  "pokes buf p [] = Inr (buf, p)"
| "pokes buf p (c # cs) =
     (case poke buf p c of Inl e \<Rightarrow> Inl e | Inr buf \<Rightarrow> pokes buf (p + 1) cs)"

text \<open>The scientific-notation branch.\<close>

definition scientific ::
  "buffer \<Rightarrow> int \<Rightarrow> double \<Rightarrow> 32 word \<Rightarrow> 32 word \<Rightarrow> error + (buffer \<times> int)" where
  "scientific buf p num E precision =
     (case long_of_double num of
        Inl e \<Rightarrow> Inl e
      | Inr l \<Rightarrow>
     (case long_to_string_with_divisor buf p l 10 0 of
        Inl e \<Rightarrow> Inl e
      | Inr (buf, p) \<Rightarrow>
     (case (if 1 \<le> precision then
              (case pow10_at (precision - 2) of
                 Inl e \<Rightarrow> Inl e
               | Inr precision \<Rightarrow>
              (case poke buf p CHR ''.'' of
                 Inl e \<Rightarrow> Inl e
               | Inr buf \<Rightarrow>
              (case long_of_double
                      (dmul (dsub num (double_of_long l)) (double_of_ulong precision)) of
                 Inl e \<Rightarrow> Inl e
               | Inr l \<Rightarrow>
                   long_to_string_with_divisor buf (p + 1) l 10 (precision div 10))))
            else Inr (buf, p)) of
        Inl e \<Rightarrow> Inl e
      | Inr (buf, p) \<Rightarrow>
     (case poke buf p CHR ''E'' of
        Inl e \<Rightarrow> Inl e
      | Inr buf \<Rightarrow>
          if 0 \<le> sint E then
            (case poke buf (p + 1) CHR ''+'' of
               Inl e \<Rightarrow> Inl e
             | Inr buf \<Rightarrow> long_to_string_with_divisor buf (p + 2) E 10 0)
          else
            (case poke buf (p + 1) CHR ''-'' of
               Inl e \<Rightarrow> Inl e
             | Inr buf \<Rightarrow> long_to_string_with_divisor buf (p + 2) (- E) 10 0)))))"

definition ftoa :: "buffer \<Rightarrow> int \<Rightarrow> double \<Rightarrow> 32 word \<Rightarrow> error + (buffer \<times> int)" where
  "ftoa buf p num precision =
     (if isnan num then pokes buf p ''NAN''
      else if isinf num then
        (if dless num (Finite 0) then pokes buf p ''-INF'' else pokes buf p ''INF'')
      else
        (case normalise num of
           None \<Rightarrow> Inl NonTermination
         | Some (num, E) \<Rightarrow>
             let precision =
                   (if precision = 0 \<or> of_nat FLOAT_PRECISION < precision
                    then of_nat FLOAT_PRECISION else precision)
             in if sint E < sint precision \<and> 0 \<le> sint E
                then plain_loop buf p num E precision
                else scientific buf p num E precision))"

subsection \<open>Decimal digits\<close>







subsection \<open>Variadic arguments and the engine's state\<close>

text \<open>
  The argument list is a list of tagged values, read in order. The tag is the type the
  caller passed: \<open>ArgInt\<close> for an \<^verbatim>\<open>int\<close> or \<^verbatim>\<open>unsigned int\<close>, \<open>ArgLong\<close> for a \<^verbatim>\<open>long\<close> or
  \<^verbatim>\<open>unsigned long\<close> (a signed type and its unsigned counterpart are read through each
  other, bit for bit), \<open>ArgDouble\<close> for a \<^verbatim>\<open>double\<close> and \<open>ArgString\<close> for a \<^verbatim>\<open>char *\<close>,
  \<open>None\<close> being the null pointer. \<^verbatim>\<open>va_arg\<close> at a type that is not the type of the next
  argument is undefined, also where both types are 32 bits wide.
\<close>

datatype arg =
    ArgInt "32 word"
  | ArgLong "32 word"
  | ArgDouble double
  | ArgString "string option"

text \<open>\<^verbatim>\<open>va_arg(ap, int)\<close> and \<^verbatim>\<open>va_arg(ap, unsigned int)\<close>.\<close>

fun va_arg_int :: "arg list \<Rightarrow> error + (32 word \<times> arg list)" where
  "va_arg_int (ArgInt w # va) = Inr (w, va)"
| "va_arg_int _ = Inl BadArgument"

text \<open>\<^verbatim>\<open>va_arg(ap, long)\<close> and \<^verbatim>\<open>va_arg(ap, unsigned long)\<close>.\<close>

fun va_arg_long :: "arg list \<Rightarrow> error + (32 word \<times> arg list)" where
  "va_arg_long (ArgLong w # va) = Inr (w, va)"
| "va_arg_long _ = Inl BadArgument"

fun va_arg_double :: "arg list \<Rightarrow> error + (double \<times> arg list)" where
  "va_arg_double (ArgDouble d # va) = Inr (d, va)"
| "va_arg_double _ = Inl BadArgument"

fun va_arg_string :: "arg list \<Rightarrow> error + (string option \<times> arg list)" where
  "va_arg_string (ArgString s # va) = Inr (s, va)"
| "va_arg_string _ = Inl BadArgument"

text \<open>
  \<open>chp\<close> holds the bytes handed to \<^verbatim>\<open>streamPut\<close> so far, in order: the program ignores
  what \<^verbatim>\<open>streamPut\<close> returns, so the bytes it hands over do not depend on the sink.
  \<open>n\<^sub>b\<close> is the counter \<^verbatim>\<open>n\<close>, \<open>ap\<close> the unread arguments, and \<open>static_f\<close> the variable
  \<^verbatim>\<open>static volatile double f\<close> of the float build, which outlives the call.
\<close>

record engine =
  chp :: string
  n\<^sub>b :: "32 word"
  ap :: "arg list"
  tmpbuf :: buffer
  static_f :: double

text \<open>\<^verbatim>\<open>streamPut(chp, (uint8_t)c); n++;\<close>\<close>

definition put :: "char \<Rightarrow> engine \<Rightarrow> engine" where
  "put c st = st\<lparr>chp := chp st @ [c], n\<^sub>b := n\<^sub>b st + 1\<rparr>"

text \<open>Several bytes put one after the other.\<close>

definition puts :: "string \<Rightarrow> engine \<Rightarrow> engine" where
  "puts cs st = st\<lparr>chp := chp st @ cs, n\<^sub>b := n\<^sub>b st + of_nat (length cs)\<rparr>"

text \<open>The counter agrees with the bytes put, modulo \<open>2\<^sup>3\<^sup>2\<close>.\<close>

definition counted :: "engine \<Rightarrow> bool" where
  "counted st \<longleftrightarrow> n\<^sub>b st = of_nat (length (chp st))"

text \<open>A state without what its static variable holds.\<close>

definition forget :: "engine \<Rightarrow> engine" where
  "forget st = st\<lparr>static_f := NaN\<rparr>"

subsection \<open>The specifier parser\<close>

text \<open>
  The format cursor. \<open>At s\<close> points at the first character of \<open>s\<close>, the characters before
  the terminating NUL; \<open>At []\<close> points at the NUL; \<open>Past\<close> points behind the NUL, where
  any read is outside the string.
\<close>

datatype cursor = At string | Past

fun cursor_size :: "cursor \<Rightarrow> nat" where
  "cursor_size Past = 0"
| "cursor_size (At s) = Suc (length s)"

text \<open>\<^verbatim>\<open>if (*fmt == c) { fmt++; ... }\<close>, with the cursor inside the string.\<close>

fun flag :: "char \<Rightarrow> string \<Rightarrow> bool \<times> string" where
  "flag c [] = (False, [])"
| "flag c (d # fmt) = (if d = c then (True, fmt) else (False, d # fmt))"

text \<open>
  The loop that reads a width or a precision. It returns the character that ended it,
  the cursor behind that character, the arguments left and the number. The value of a
  \<^verbatim>\<open>*\<close> is stored in the \<^verbatim>\<open>char\<close> variable \<^verbatim>\<open>c\<close> first, which keeps its low eight bits.
\<close>

fun number_loop ::
  "string \<Rightarrow> arg list \<Rightarrow> 32 word \<Rightarrow> error + (char \<times> cursor \<times> arg list \<times> 32 word)" where
  "number_loop [] va width = Inr (NUL, Past, va, width)"
| "number_loop (c # fmt) va width =
     (if ord CHR ''0'' \<le> ord c \<and> ord c \<le> ord CHR ''9'' then
        number_loop fmt va (width * 10 + char_to_long (char_of (ord c - ord CHR ''0'')))
      else if c = CHR ''*'' then
        (case va_arg_int va of
           Inl e \<Rightarrow> Inl e
         | Inr (v, va) \<Rightarrow> number_loop fmt va (width * 10 + char_to_long (long_to_char v)))
      else Inr (c, At fmt, va, width))"

text \<open>The long modifier: it returns \<^verbatim>\<open>is_long\<close>, the conversion character and the cursor.\<close>

fun long_modifier :: "char \<Rightarrow> cursor \<Rightarrow> error + (bool \<times> char \<times> cursor)" where
  "long_modifier c fmt =
     (if c = CHR ''l'' \<or> c = CHR ''L'' then
        (case fmt of
           Past \<Rightarrow> Inl FormatOverrun
         | At [] \<Rightarrow> Inr (True, c, At [])
         | At (d # fmt) \<Rightarrow> Inr (True, d, At fmt))
      else Inr (ord CHR ''A'' \<le> ord c \<and> ord c \<le> ord CHR ''Z'', c, fmt))"

subsection \<open>Command decoding\<close>

text \<open>The loop of the \<^verbatim>\<open>s\<close> conversion; it returns \<^verbatim>\<open>p - s\<close>.\<close>

fun string_scan :: "string \<Rightarrow> 32 word \<Rightarrow> 32 word" where
  "string_scan [] precision = 0"
| "string_scan (c # s) precision =
     (if c \<noteq> NUL \<and> 0 \<le> sint (precision - 1) then 1 + string_scan s (precision - 1)
      else 0)"

text \<open>
  After the \<^verbatim>\<open>switch\<close> the rendered text lies between \<^verbatim>\<open>s\<close> and \<^verbatim>\<open>p\<close>. \<open>rendered\<close> gives
  the new state, the filler, the memory \<^verbatim>\<open>s\<close> points to and \<^verbatim>\<open>p - s\<close>, for a text in the
  working buffer.
\<close>

definition rendered ::
  "engine \<Rightarrow> arg list \<Rightarrow> char \<Rightarrow> error + (buffer \<times> int) \<Rightarrow>
   error + (engine \<times> char \<times> buffer \<times> 32 word)" where
  "rendered st va filler r =
     (case r of
        Inl e \<Rightarrow> Inl e
      | Inr (buf, p) \<Rightarrow> Inr (st\<lparr>ap := va, tmpbuf := buf\<rparr>, filler, buf, word_of_int p))"

text \<open>\<^verbatim>\<open>if (x < 0) { *p++ = '-'; ... }\<close> at the start of the working buffer.\<close>

definition minus_sign :: "bool \<Rightarrow> buffer \<Rightarrow> error + (buffer \<times> int)" where
  "minus_sign negative buf =
     (if negative
      then (case poke buf 0 CHR ''-'' of Inl e \<Rightarrow> Inl e | Inr buf \<Rightarrow> Inr (buf, 1))
      else Inr (buf, 0))"

definition unsigned_common ::
  "bool \<Rightarrow> 32 word \<Rightarrow> char \<Rightarrow> engine \<Rightarrow> error + (engine \<times> char \<times> buffer \<times> 32 word)" where
  "unsigned_common is_long c filler st =
     (case (if is_long then va_arg_long (ap st) else va_arg_int (ap st)) of
        Inl e \<Rightarrow> Inl e
      | Inr (l, va) \<Rightarrow> rendered st va filler (ch_ltoa (tmpbuf st) 0 l c))"

text \<open>
  The \<^verbatim>\<open>case\<close> labels of the \<^verbatim>\<open>switch\<close>: the command a conversion character selects, with
  the radix for the three unsigned commands. The label \<^verbatim>\<open>'f'\<close> exists in the float build
  only.
\<close>

datatype command =
    CharCommand
  | StringCommand
  | SignedCommand
  | FloatCommand
  | UnsignedCommand "32 word"
  | DefaultCommand

definition decode :: "bool \<Rightarrow> char \<Rightarrow> command" where
  "decode use_float c =
     (if c = CHR ''c'' then CharCommand
      else if c = CHR ''s'' then StringCommand
      else if c = CHR ''D'' \<or> c = CHR ''d'' \<or> c = CHR ''I'' \<or> c = CHR ''i'' then SignedCommand
      else if use_float \<and> c = CHR ''f'' then FloatCommand
      else if c = CHR ''X'' \<or> c = CHR ''x'' then UnsignedCommand 16
      else if c = CHR ''U'' \<or> c = CHR ''u'' then UnsignedCommand 10
      else if c = CHR ''O'' \<or> c = CHR ''o'' then UnsignedCommand 8
      else DefaultCommand)"

text \<open>The bodies of the \<^verbatim>\<open>switch\<close>.\<close>

definition convert ::
  "bool \<Rightarrow> char \<Rightarrow> bool \<Rightarrow> 32 word \<Rightarrow> char \<Rightarrow> engine \<Rightarrow>
   error + (engine \<times> char \<times> buffer \<times> 32 word)" where
  "convert use_float c is_long precision filler st =
     (case decode use_float c of
        CharCommand \<Rightarrow>
          (case va_arg_int (ap st) of
             Inl e \<Rightarrow> Inl e
           | Inr (v, va) \<Rightarrow>
               rendered st va CHR '' ''
                 (case poke (tmpbuf st) 0 (long_to_char v) of
                    Inl e \<Rightarrow> Inl e | Inr buf \<Rightarrow> Inr (buf, 1)))
      | StringCommand \<Rightarrow>
          (case va_arg_string (ap st) of
             Inl e \<Rightarrow> Inl e
           | Inr (sp, va) \<Rightarrow>
               let s = takeWhile (\<lambda>c. c \<noteq> NUL)
                         (case sp of None \<Rightarrow> ''(null)'' | Some s \<Rightarrow> s);
                   precision = (if precision = 0 then 32767 else precision)
               in Inr (st\<lparr>ap := va\<rparr>, CHR '' '', map Some (s @ [NUL]),
                       string_scan s precision))
      | SignedCommand \<Rightarrow>
          (case (if is_long then va_arg_long (ap st) else va_arg_int (ap st)) of
             Inl e \<Rightarrow> Inl e
           | Inr (l, va) \<Rightarrow>
               (case minus_sign (sint l < 0) (tmpbuf st) of
                  Inl e \<Rightarrow> Inl e
                | Inr (buf, p) \<Rightarrow>
                    let l = (if sint l < 0 then - l else l)
                    in rendered st va filler (ch_ltoa buf p l 10)))
      | FloatCommand \<Rightarrow>
          (case va_arg_double (ap st) of
             Inl e \<Rightarrow> Inl e
           | Inr (d, va) \<Rightarrow>
               let st = st\<lparr>static_f := d\<rparr>;
                   negative = dless (static_f st) (Finite 0)
               in (case minus_sign negative (tmpbuf st) of
                     Inl e \<Rightarrow> Inl e
                   | Inr (buf, p) \<Rightarrow>
                       let st = (if negative then st\<lparr>static_f := dneg (static_f st)\<rparr>
                                 else st)
                       in rendered st va filler (ftoa buf p (static_f st) precision)))
      | UnsignedCommand radix \<Rightarrow> unsigned_common is_long radix filler st
      | DefaultCommand \<Rightarrow>
          rendered st (ap st) filler
            (case poke (tmpbuf st) 0 c of Inl e \<Rightarrow> Inl e | Inr buf \<Rightarrow> Inr (buf, 1)))"

subsection \<open>Padding and emission\<close>

text \<open>\<^verbatim>\<open>do { streamPut(chp, (uint8_t)filler); n++; } while (++width != 0);\<close>\<close>

function fill_before :: "char \<Rightarrow> 32 word \<Rightarrow> engine \<Rightarrow> engine" where
  "fill_before filler width st =
     (if width + 1 \<noteq> 0 then fill_before filler (width + 1) (put filler st)
      else put filler st)"
  by pat_completeness auto
termination
proof (relation "measure (\<lambda>(filler, width, st). 2 ^ 32 - unat width)")
  fix filler :: char and width :: "32 word" and st :: engine
  assume "width + 1 \<noteq> 0"
  then have "unat (1 + width) = Suc (unat width)"
    by (simp add: unatSuc add.commute)
  moreover have "unat (1 + width) < 2 ^ 32"
    using unsigned_less [of "1 + width"] by simp
  ultimately show "((filler, width + 1, put filler st), filler, width, st)
      \<in> measure (\<lambda>(filler, width, st). 2 ^ 32 - unat width)"
    by (simp add: add.commute)
qed simp

text \<open>\<^verbatim>\<open>while (--i >= 0) { streamPut(chp, (uint8_t)*s++); n++; }\<close>\<close>

function text_loop :: "buffer \<Rightarrow> 32 word \<Rightarrow> engine \<Rightarrow> error + engine" where
  "text_loop s i st =
     (let i = i - 1
      in if 0 \<le> sint i then
           (case s of
              [] \<Rightarrow> Inl BufferOverflow
            | None # s \<Rightarrow> Inl UninitialisedRead
            | Some c # s \<Rightarrow> text_loop s i (put c st))
         else Inr st)"
  by pat_completeness auto
termination
  by (relation "measure (\<lambda>(s, i, st). length s)") auto

text \<open>\<^verbatim>\<open>while (width) { streamPut(chp, (uint8_t)filler); n++; width--; }\<close>\<close>

function fill_after :: "char \<Rightarrow> 32 word \<Rightarrow> engine \<Rightarrow> engine" where
  "fill_after filler width st =
     (if width \<noteq> 0 then fill_after filler (width - 1) (put filler st) else st)"
  by pat_completeness auto
termination
  by (relation "measure (\<lambda>(filler, width, st). unat width)")
     (auto simp: unat_minus_one unat_gt_0)

text \<open>The code between the \<^verbatim>\<open>switch\<close> and the end of the loop body.\<close>

definition emit_field ::
  "bool \<Rightarrow> char \<Rightarrow> 32 word \<Rightarrow> buffer \<Rightarrow> 32 word \<Rightarrow> engine \<Rightarrow> error + engine" where
  "emit_field left_align filler width s i st =
     (let width = width - i;
          width = (if sint width < 0 then 0 else width);
          width = (if \<not> left_align then - width else width)
      in case (if sint width < 0 then
                 (case s of
                    [] \<Rightarrow> Inl BufferOverflow
                  | None # s' \<Rightarrow> Inl UninitialisedRead
                  | Some c # s' \<Rightarrow>
                      if c = CHR ''-'' \<and> filler = CHR ''0''
                      then Inr (s', i - 1, 0, fill_before filler width (put c st))
                      else Inr (s, i, 0, fill_before filler width st))
               else Inr (s, i, width, st)) of
           Inl e \<Rightarrow> Inl e
         | Inr (s, i, width, st) \<Rightarrow>
             (case text_loop s i st of
                Inl e \<Rightarrow> Inl e
              | Inr st \<Rightarrow> Inr (fill_after filler width st)))"


subsection \<open>The format engine\<close>

text \<open>
  The first part of the specifier parser: the flags, the width and the precision. It
  returns \<^verbatim>\<open>left_align\<close>, \<^verbatim>\<open>filler\<close>, \<^verbatim>\<open>width\<close>, \<^verbatim>\<open>precision\<close>, the character that ended
  the width or the precision, the cursor behind that character and the arguments left.
\<close>

definition scan_spec ::
  "string \<Rightarrow> arg list \<Rightarrow>
   error + (bool \<times> char \<times> 32 word \<times> 32 word \<times> char \<times> cursor \<times> arg list)" where
  "scan_spec fmt va =
     (let (left_align, fmt) = flag CHR ''-'' fmt;
          (zero, fmt) = flag CHR ''0'' fmt;
          filler = (if zero then CHR ''0'' else CHR '' '')
      in case number_loop fmt va 0 of
           Inl e \<Rightarrow> Inl e
         | Inr (c, fmt, va, width) \<Rightarrow>
        (case (if c = CHR ''.'' then
                 (case fmt of
                    Past \<Rightarrow> Inl FormatOverrun
                  | At fmt \<Rightarrow> number_loop fmt va 0)
               else Inr (c, fmt, va, 0)) of
           Inl e \<Rightarrow> Inl e
         | Inr (c, fmt, va, precision) \<Rightarrow>
             Inr (left_align, filler, width, precision, c, fmt, va)))"

text \<open>
  The specifier parser: the body of the main loop from behind the \<^verbatim>\<open>%\<close> up to the
  \<^verbatim>\<open>switch\<close>. It returns \<^verbatim>\<open>left_align\<close>, \<^verbatim>\<open>filler\<close>, \<^verbatim>\<open>width\<close>, \<^verbatim>\<open>precision\<close>,
  \<^verbatim>\<open>is_long\<close>, the conversion character, the cursor and the arguments left.
\<close>

definition parse_directive ::
  "string \<Rightarrow> arg list \<Rightarrow>
   error + (bool \<times> char \<times> 32 word \<times> 32 word \<times> bool \<times> char \<times> cursor \<times> arg list)" where
  "parse_directive fmt va =
     (case scan_spec fmt va of
        Inl e \<Rightarrow> Inl e
      | Inr (left_align, filler, width, precision, c, fmt, va) \<Rightarrow>
          (case long_modifier c fmt of
             Inl e \<Rightarrow> Inl e
           | Inr (is_long, c, fmt) \<Rightarrow>
               Inr (left_align, filler, width, precision, is_long, c, fmt, va)))"

text \<open>One directive: the specifier parser, the \<^verbatim>\<open>switch\<close> and the emission.\<close>

definition directive :: "bool \<Rightarrow> string \<Rightarrow> engine \<Rightarrow> error + (cursor \<times> engine)" where
  "directive use_float fmt st =
     (case parse_directive fmt (ap st) of
        Inl e \<Rightarrow> Inl e
      | Inr (left_align, filler, width, precision, is_long, c, fmt, va) \<Rightarrow>
     (case convert use_float c is_long precision filler (st\<lparr>ap := va\<rparr>) of
        Inl e \<Rightarrow> Inl e
      | Inr (st, filler, s, i) \<Rightarrow>
     (case emit_field left_align filler width s i st of
        Inl e \<Rightarrow> Inl e
      | Inr st \<Rightarrow> Inr (fmt, st))))"

lemma number_loop_size:
  "number_loop fmt va width = Inr (c, cur, va', width') \<Longrightarrow> cursor_size cur \<le> length fmt"
proof (induction fmt va width rule: number_loop.induct)
  case (1 va width)
  then show ?case by auto
next
  case (2 c0 fmt va width)
  show ?case
  proof (cases "ord CHR ''0'' \<le> ord c0 \<and> ord c0 \<le> ord CHR ''9''")
    case True
    with 2 show ?thesis by fastforce
  next
    case digit: False
    show ?thesis
    proof (cases "c0 = CHR ''*''")
      case True
      with digit 2(3) obtain v va1 where
        v: "va_arg_int va = Inr (v, va1)" and
        n: "number_loop fmt va1 (width * 10 + char_to_long (long_to_char v))
              = Inr (c, cur, va', width')"
        by (auto split: sum.splits)
      from 2(2) [OF digit True v refl n] show ?thesis by simp
    next
      case False
      with digit 2(3) show ?thesis by auto
    qed
  qed
qed

lemma flag_size: "flag c fmt = (b, fmt') \<Longrightarrow> length fmt' \<le> length fmt"
  by (cases fmt) (auto split: if_splits)

lemma long_modifier_size:
  "long_modifier c cur = Inr (is_long, c', cur') \<Longrightarrow> cursor_size cur' \<le> cursor_size cur"
  by (auto split: if_splits cursor.splits list.splits)

lemma scan_spec_size:
  assumes "scan_spec fmt va0 = Inr (left_align, filler, width, precision, c', cur, va')"
  shows "cursor_size cur \<le> length fmt"
proof -
  obtain la fmt1 where f1: "flag CHR ''-'' fmt = (la, fmt1)"
    by (cases "flag CHR ''-'' fmt")
  obtain z fmt2 where f2: "flag CHR ''0'' fmt1 = (z, fmt2)"
    by (cases "flag CHR ''0'' fmt1")
  from assms f1 f2 obtain c cur3 va w where
    n1: "number_loop fmt2 va0 0 = Inr (c, cur3, va, w)"
    by (auto simp: scan_spec_def split: sum.splits)
  from assms f1 f2 n1 have
    n2: "(if c = CHR ''.'' then
            (case cur3 of Past \<Rightarrow> Inl FormatOverrun | At fmt \<Rightarrow> number_loop fmt va 0)
          else Inr (c, cur3, va, 0)) = Inr (c', cur, va', precision)"
    by (auto simp: scan_spec_def split: sum.splits)
  have "cursor_size cur \<le> cursor_size cur3"
    using n2 number_loop_size by (fastforce split: if_splits cursor.splits)
  moreover have "cursor_size cur3 \<le> length fmt2"
    using n1 by (rule number_loop_size)
  moreover have "length fmt2 \<le> length fmt1" "length fmt1 \<le> length fmt"
    using f1 f2 flag_size by blast+
  ultimately show ?thesis by linarith
qed

lemma parse_directive_size:
  assumes "parse_directive fmt va0 =
             Inr (left_align, filler, width, precision, is_long, c'', cur, va'')"
  shows "cursor_size cur \<le> length fmt"
proof -
  from assms obtain c' cur4 where
    sc: "scan_spec fmt va0 = Inr (left_align, filler, width, precision, c', cur4, va'')" and
    lm: "long_modifier c' cur4 = Inr (is_long, c'', cur)"
    unfolding parse_directive_def
    by (auto simp del: long_modifier.simps split: sum.splits)
  have "cursor_size cur4 \<le> length fmt"
    using sc by (rule scan_spec_size)
  moreover have "cursor_size cur \<le> cursor_size cur4"
    using lm by (rule long_modifier_size)
  ultimately show ?thesis by linarith
qed

lemma directive_size:
  assumes "directive use_float fmt st = Inr (cur, st')"
  shows "cursor_size cur \<le> length fmt"
proof -
  from assms obtain left_align filler width precision is_long c va where
    "parse_directive fmt (ap st) =
       Inr (left_align, filler, width, precision, is_long, c, cur, va)"
    unfolding directive_def by (auto split: sum.splits)
  then show ?thesis by (rule parse_directive_size)
qed

text \<open>
  The main loop of \<^verbatim>\<open>chvprintf\<close>. \<^verbatim>\<open>c = *fmt++\<close> at a cursor behind the terminator reads
  outside the format string.
\<close>

function chvprintf_loop :: "bool \<Rightarrow> cursor \<Rightarrow> engine \<Rightarrow> error + engine" where
  "chvprintf_loop use_float Past st = Inl FormatOverrun"
| "chvprintf_loop use_float (At []) st = Inr st"
| "chvprintf_loop use_float (At (c # fmt)) st =
     (if c \<noteq> CHR ''%'' then chvprintf_loop use_float (At fmt) (put c st)
      else
        (case directive use_float fmt st of
           Inl e \<Rightarrow> Inl e
         | Inr (fmt, st) \<Rightarrow> chvprintf_loop use_float fmt st))"
  by pat_completeness auto
termination
  by (relation "measure (\<lambda>(use_float, cur, st). cursor_size cur)")
     (auto dest: directive_size)

text \<open>
  \<^verbatim>\<open>chvprintf\<close>. The format string ends at its first NUL. The working buffer has
  \<^verbatim>\<open>2 * MAX_FILLER + 1\<close> cells when \<^verbatim>\<open>CHPRINTF_USE_FLOAT\<close> is set and \<^verbatim>\<open>MAX_FILLER + 1\<close>
  otherwise. \<open>f0\<close> is what the static variable \<^verbatim>\<open>f\<close> holds when the call starts.
\<close>

definition chvprintf :: "bool \<Rightarrow> double \<Rightarrow> string \<Rightarrow> arg list \<Rightarrow> error + engine" where
  "chvprintf use_float f0 fmt va =
     chvprintf_loop use_float (At (takeWhile (\<lambda>c. c \<noteq> NUL) fmt))
       \<lparr>chp = [], n\<^sub>b = 0, ap = va,
        tmpbuf = replicate (nat (if use_float then 2 * MAX_FILLER + 1 else MAX_FILLER + 1)) None,
        static_f = f0\<rparr>"

text \<open>What a caller observes: the bytes sent to the stream and the value returned.\<close>

definition printed :: "error + engine \<Rightarrow> error + (string \<times> 32 word)" where
  "printed r = (case r of Inl e \<Rightarrow> Inl e | Inr st \<Rightarrow> Inr (chp st, n\<^sub>b st))"

subsection \<open>The bounded form\<close>

text \<open>
  Modelled from the spec: the memory stream of \<^verbatim>\<open>memstreams.h\<close>, which is not among the
  sources. The spec's bounded sink ``tracks bytes written vs. capacity and refuses writes
  past capacity'' and ``silently stops accepting bytes past capacity''. \<open>ms_buffer\<close> is the
  memory behind the destination pointer, \<open>ms_size\<close> the capacity given to the stream and
  \<open>ms_eos\<close> the number of bytes written, the field \<^verbatim>\<open>ms.eos\<close> that \<^verbatim>\<open>chvsnprintf\<close> reads.
\<close>

record MemoryStream =
  ms_buffer :: string
  ms_size :: nat
  ms_eos :: nat
  ms_offset :: nat

text \<open>Modelled from the spec: \<^verbatim>\<open>msObjectInit(&ms, buffer, size, eos)\<close> builds the sink.\<close>

definition msObjectInit :: "string \<Rightarrow> nat \<Rightarrow> nat \<Rightarrow> MemoryStream" where
  "msObjectInit buffer sz eos =
     \<lparr>ms_buffer = buffer, ms_size = sz, ms_eos = eos, ms_offset = 0\<rparr>"

text \<open>
  Modelled from the spec: the sink's ``accept one byte'' operation, behind \<^verbatim>\<open>streamPut\<close>.
  A byte past the capacity is refused and changes nothing; a store outside the memory
  behind the pointer is an error.
\<close>

definition ms_put :: "MemoryStream \<Rightarrow> char \<Rightarrow> error + MemoryStream" where
  "ms_put ms b =
     (if ms_size ms \<le> ms_eos ms then Inr ms
      else if ms_eos ms < length (ms_buffer ms)
      then Inr (ms\<lparr>ms_buffer := (ms_buffer ms)[ms_eos ms := b], ms_eos := ms_eos ms + 1\<rparr>)
      else Inl BufferOverflow)"

text \<open>The sink takes the bytes of a call in the order \<^verbatim>\<open>chvprintf\<close> hands them over.\<close>

fun ms_write :: "MemoryStream \<Rightarrow> string \<Rightarrow> error + MemoryStream" where
  "ms_write ms [] = Inr ms"
| "ms_write ms (b # bs) = (case ms_put ms b of Inl e \<Rightarrow> Inl e | Inr ms \<Rightarrow> ms_write ms bs)"

text \<open>
  \<^verbatim>\<open>chvsnprintf\<close>: it returns the memory behind \<^verbatim>\<open>str\<close> after the call and \<^verbatim>\<open>retval\<close>.
  \<open>sz\<close> is the parameter \<^verbatim>\<open>size\<close>, a \<^verbatim>\<open>size_t\<close>; no operation on it can wrap.
\<close>

definition chvsnprintf ::
  "bool \<Rightarrow> double \<Rightarrow> string \<Rightarrow> nat \<Rightarrow> string \<Rightarrow> arg list \<Rightarrow> error + (string \<times> 32 word)" where
  "chvsnprintf use_float f0 str sz fmt va =
     (let size_wo_nul = (if 0 < sz then sz - 1 else 0);
          ms = msObjectInit str size_wo_nul 0
      in case chvprintf use_float f0 fmt va of
           Inl e \<Rightarrow> Inl e
         | Inr st \<Rightarrow>
             (case ms_write ms (chp st) of
                Inl e \<Rightarrow> Inl e
              | Inr ms \<Rightarrow>
                  let retval = n\<^sub>b st
                  in if ms_eos ms < sz then
                       (if ms_eos ms < length (ms_buffer ms)
                        then Inr ((ms_buffer ms)[ms_eos ms := NUL], retval)
                        else Inl BufferOverflow)
                     else Inr (ms_buffer ms, retval)))"

section \<open>Properties\<close>

subsection \<open>Emission\<close>

lemma puts_Nil [simp]: "puts [] st = st"
  by (simp add: puts_def)


lemma puts_puts [simp]: "puts bs (puts as st) = puts (as @ bs) st"
  by (simp add: puts_def algebra_simps)



lemma sint_of_nat_small:
  "k < 2 ^ 31 \<Longrightarrow> sint (word_of_nat k :: 32 word) = int k"
  by (simp add: signed_of_nat signed_take_bit_int_eq_self)





lemma counted_put: "counted st \<Longrightarrow> counted (put c st)"
  by (simp add: counted_def put_def)

lemma counted_fill_before: "counted st \<Longrightarrow> counted (fill_before filler width st)"
proof (induction filler width st rule: fill_before.induct)
  case (1 filler width st)
  then show ?case
    by (subst fill_before.simps) (simp add: counted_put del: fill_before.simps)
qed

lemma counted_fill_after: "counted st \<Longrightarrow> counted (fill_after filler width st)"
proof (induction filler width st rule: fill_after.induct)
  case (1 filler width st)
  then show ?case
    by (subst fill_after.simps) (simp add: counted_put del: fill_after.simps)
qed

lemma counted_text_loop:
  "counted st \<Longrightarrow> text_loop s i st = Inr st' \<Longrightarrow> counted st'"
proof (induction s i st rule: text_loop.induct)
  case (1 s i st)
  show ?case
  proof (cases "0 \<le> sint (i - 1)")
    case False
    with "1.prems" show ?thesis
      by (subst (asm) text_loop.simps) (simp del: text_loop.simps)
  next
    case True
    with "1.prems"(2) obtain c s' where s: "s = Some c # s'"
      and run: "text_loop s' (i - 1) (put c st) = Inr st'"
      by (subst (asm) text_loop.simps)
         (auto simp: Let_def split: list.splits option.splits simp del: text_loop.simps)
    from "1.IH" [OF refl True s refl counted_put [OF "1.prems"(1)] run]
    show ?thesis .
  qed
qed

lemma counted_emit_field:
  assumes "counted st" "emit_field left_align filler width s i st = Inr st'"
  shows "counted st'"
  using assms unfolding emit_field_def Let_def
  by (auto split: if_splits list.splits option.splits sum.splits
      intro!: counted_fill_after
      dest!: counted_text_loop [rotated]
      intro: counted_fill_before counted_put
      simp del: text_loop.simps fill_before.simps fill_after.simps)



subsection \<open>The counter\<close>

lemma rendered_keeps_stream:
  "rendered st va filler r = Inr (st', filler', s, i) \<Longrightarrow> chp st' = chp st \<and> n\<^sub>b st' = n\<^sub>b st"
  by (auto simp: rendered_def split: sum.splits)

lemma unsigned_common_keeps_stream:
  "unsigned_common is_long radix filler st = Inr (st', filler', s, i)
   \<Longrightarrow> chp st' = chp st \<and> n\<^sub>b st' = n\<^sub>b st"
  by (auto simp: unsigned_common_def split: sum.splits dest: rendered_keeps_stream)

lemma convert_keeps_stream:
  assumes "convert use_float c is_long precision filler st = Inr (st', filler', s, i)"
  shows "chp st' = chp st \<and> n\<^sub>b st' = n\<^sub>b st"
proof (cases "decode use_float c")
  case CharCommand
  with assms show ?thesis
    by (auto simp: convert_def split: sum.splits dest!: rendered_keeps_stream)
next
  case StringCommand
  with assms show ?thesis
    by (auto simp: convert_def Let_def split: sum.splits)
next
  case SignedCommand
  with assms show ?thesis
    by (auto simp: convert_def Let_def split: sum.splits dest!: rendered_keeps_stream)
next
  case FloatCommand
  with assms show ?thesis
    by (auto simp: convert_def Let_def split: sum.splits if_splits dest!: rendered_keeps_stream)
next
  case (UnsignedCommand radix)
  with assms show ?thesis
    by (auto simp: convert_def dest!: unsigned_common_keeps_stream)
next
  case DefaultCommand
  with assms show ?thesis
    by (auto simp: convert_def dest!: rendered_keeps_stream)
qed


lemma counted_directive:
  assumes "counted st" "directive use_float fmt st = Inr (cur, st')"
  shows "counted st'"
proof -
  from assms(2) obtain la fi0 c il pr va w st1 fi s i where
    cv: "convert use_float c il pr fi0 (st\<lparr>ap := va\<rparr>) = Inr (st1, fi, s, i)" and
    em: "emit_field la fi w s i st1 = Inr st'"
    unfolding directive_def by (auto split: sum.splits)
  from convert_keeps_stream [OF cv] assms(1) have "counted st1"
    by (simp add: counted_def)
  then show ?thesis using em by (rule counted_emit_field)
qed

lemma counted_chvprintf_loop:
  "counted st \<Longrightarrow> chvprintf_loop use_float cur st = Inr st' \<Longrightarrow> counted st'"
proof (induction use_float cur st rule: chvprintf_loop.induct)
  case (1 use_float st)
  then show ?case by simp
next
  case (2 use_float st)
  then show ?case by simp
next
  case (3 use_float c fmt st)
  show ?case
  proof (cases "c = CHR ''%''")
    case False
    with 3 show ?thesis by (simp add: counted_put)
  next
    case True
    with "3.prems"(2) obtain cur1 st1 where
      d: "directive use_float fmt st = Inr (cur1, st1)" and
      l: "chvprintf_loop use_float cur1 st1 = Inr st'"
      by (auto split: sum.splits)
    from True have nn: "\<not> c \<noteq> CHR ''%''" by simp
    from "3.IH"(2) [OF nn d refl counted_directive [OF "3.prems"(1) d] l]
    show ?thesis .
  qed
qed

lemma chvprintf_counted:
  assumes "printed (chvprintf use_float f0 fmt va) = Inr (out, retval)"
  shows "retval = of_nat (length out)"
proof -
  from assms obtain st where
    run: "chvprintf use_float f0 fmt va = Inr st" and st: "chp st = out" "n\<^sub>b st = retval"
    by (auto simp: printed_def split: sum.splits)
  have "counted st"
    using run unfolding chvprintf_def
    by (rule counted_chvprintf_loop [rotated]) (simp add: counted_def)
  with st show ?thesis by (simp add: counted_def)
qed

subsection \<open>The bounded form: truncation and capacity 0\<close>

lemma ms_write_result:
  assumes "ms_size ms \<le> length (ms_buffer ms)" "ms_eos ms \<le> ms_size ms"
  shows "ms_write ms bs =
     Inr (ms\<lparr>ms_buffer := take (ms_eos ms) (ms_buffer ms) @ take (ms_size ms - ms_eos ms) bs
                   @ drop (min (ms_size ms) (ms_eos ms + length bs)) (ms_buffer ms),
              ms_eos := min (ms_size ms) (ms_eos ms + length bs)\<rparr>)"
  using assms
proof (induction bs arbitrary: ms)
  case Nil
  then show ?case by (simp add: min_absorb2)
next
  case (Cons b bs)
  show ?case
  proof (cases "ms_size ms \<le> ms_eos ms")
    case True
    with Cons.prems have eq: "ms_eos ms = ms_size ms" by simp
    have "ms_put ms b = Inr ms" using True by (simp add: ms_put_def)
    then show ?thesis
      using Cons.IH [OF Cons.prems] eq by (simp add: min_absorb1)
  next
    case False
    let ?ms = "ms\<lparr>ms_buffer := (ms_buffer ms)[ms_eos ms := b], ms_eos := ms_eos ms + 1\<rparr>"
    from False Cons.prems have lt: "ms_eos ms < length (ms_buffer ms)" by simp
    then have p: "ms_put ms b = Inr ?ms" using False by (simp add: ms_put_def)
    have ih: "ms_write ?ms bs = Inr (?ms\<lparr>ms_buffer := take (ms_eos ?ms) (ms_buffer ?ms)
                   @ take (ms_size ?ms - ms_eos ?ms) bs
                   @ drop (min (ms_size ?ms) (ms_eos ?ms + length bs)) (ms_buffer ?ms),
              ms_eos := min (ms_size ?ms) (ms_eos ?ms + length bs)\<rparr>)"
      using False Cons.prems by (intro Cons.IH) simp_all
    have t: "take (Suc (ms_eos ms)) ((ms_buffer ms)[ms_eos ms := b]) = take (ms_eos ms) (ms_buffer ms) @ [b]"
      using lt by (simp add: take_Suc_conv_app_nth)
    have sz: "ms_size ms - ms_eos ms = Suc (ms_size ms - Suc (ms_eos ms))"
      using False by simp
    have d: "drop (min (ms_size ms) (Suc (ms_eos ms + length bs))) ((ms_buffer ms)[ms_eos ms := b])
        = drop (min (ms_size ms) (Suc (ms_eos ms + length bs))) (ms_buffer ms)"
      using False by simp
    show ?thesis
      using p ih t d by (simp add: sz)
  qed
qed


lemma chvprintf_counted_signed:
  assumes "printed (chvprintf use_float f0 fmt va) = Inr (out, retval)"
  shows "retval = of_nat (length out) \<and> (length out < 2 ^ 31 \<longrightarrow> sint retval = int (length out))"
  using chvprintf_counted [OF assms] by (simp add: sint_of_nat_small)

text \<open>
  C1. When the unbounded form returns \<open>retval\<close> after sending the bytes \<open>out\<close>, and the
  capacity \<open>N \<ge> 1\<close> (within the memory behind \<open>str\<close>) is at most the length of \<open>out\<close>, the
  bounded form stores the first \<open>N - 1\<close> bytes of \<open>out\<close>, a NUL right behind them, leaves the
  memory from index \<open>N\<close> on as it was, and returns the same \<open>retval\<close>. That value is the
  length of \<open>out\<close> as a 32-bit \<^verbatim>\<open>int\<close>: equal to it whenever the length fits.
\<close>

theorem chvsnprintf_truncates:
  assumes run: "printed (chvprintf use_float f0 fmt va) = Inr (out, retval)"
    and N: "1 \<le> N" "N \<le> length str" "N \<le> length out"
  shows "chvsnprintf use_float f0 str N fmt va
           = Inr (take (N - 1) out @ NUL # drop N str, retval)
         \<and> retval = of_nat (length out)
         \<and> (length out < 2 ^ 31 \<longrightarrow> sint retval = int (length out))"
proof -
  from run obtain st where
    st: "chvprintf use_float f0 fmt va = Inr st" "chp st = out" "n\<^sub>b st = retval"
    by (auto simp: printed_def split: sum.splits)
  let ?ms = "msObjectInit str (N - 1) 0"
  have w: "ms_write ?ms out
      = Inr (?ms\<lparr>ms_buffer := take (N - 1) out @ drop (N - 1) str, ms_eos := N - 1\<rparr>)"
    using N ms_write_result [of ?ms out] by (simp add: msObjectInit_def min_absorb1)
  have d: "drop (N - 1) str = str ! (N - 1) # drop N str"
    using N Cons_nth_drop_Suc [of "N - 1" str] by simp
  have len: "length (take (N - 1) out) = N - 1" using N by simp
  have u: "(take (N - 1) out @ drop (N - 1) str)[N - 1 := NUL]
             = take (N - 1) out @ NUL # drop N str"
    using list_update_length [of "take (N - 1) out" "str ! (N - 1)" "drop N str" NUL]
    unfolding len d .
  have "chvsnprintf use_float f0 str N fmt va
          = Inr (take (N - 1) out @ NUL # drop N str, retval)"
    using N st w u by (simp add: chvsnprintf_def Let_def)
  with chvprintf_counted_signed [OF run] show ?thesis by blast
qed

theorem chvsnprintf_truncates_witness:
  "chvsnprintf False (Finite 0) ''????'' 4 ''%d'' [ArgInt 12345]
     = Inr ([CHR ''1'', CHR ''2'', CHR ''3'', NUL], 5)"
proof -
  have run: "printed (chvprintf False (Finite 0) ''%d'' [ArgInt 12345]) = Inr (''12345'', 5)"
    by code_simp
  from chvsnprintf_truncates [OF run, of 4 "''????''"] show ?thesis by simp
qed

text \<open>
  C6. With capacity 0 the bounded form stores nothing, not even a NUL: the memory behind
  \<open>str\<close> is returned as it was, whatever it is (also when there is none, \<open>str = []\<close>,
  where any store would be an error), and the value returned is that of the unbounded
  form, the length of its output.
\<close>

theorem chvsnprintf_capacity_zero:
  assumes run: "printed (chvprintf use_float f0 fmt va) = Inr (out, retval)"
  shows "chvsnprintf use_float f0 str 0 fmt va = Inr (str, retval)
         \<and> retval = of_nat (length out)
         \<and> (length out < 2 ^ 31 \<longrightarrow> sint retval = int (length out))"
proof -
  from run obtain st where
    st: "chvprintf use_float f0 fmt va = Inr st" "chp st = out" "n\<^sub>b st = retval"
    by (auto simp: printed_def split: sum.splits)
  let ?ms = "msObjectInit str 0 0"
  have w: "ms_write ?ms out = Inr ?ms"
    using ms_write_result [of ?ms out] by (simp add: msObjectInit_def)
  have "chvsnprintf use_float f0 str 0 fmt va = Inr (str, retval)"
    using st w by (simp add: chvsnprintf_def Let_def msObjectInit_def)
  with chvprintf_counted_signed [OF run] show ?thesis by blast
qed

theorem chvsnprintf_capacity_zero_witness:
  "chvsnprintf False (Finite 0) [] 0 ''%d'' [ArgInt 12345] = Inr ([], 5)"
proof -
  have run: "printed (chvprintf False (Finite 0) ''%d'' [ArgInt 12345]) = Inr (''12345'', 5)"
    by code_simp
  from chvsnprintf_capacity_zero [OF run, of "[]"] show ?thesis by simp
qed

subsection \<open>The static variable of the float build\<close>

lemma forget_eqD: "forget a = forget b \<Longrightarrow> b = a\<lparr>static_f := static_f b\<rparr>"
  by (cases a; cases b) (simp add: forget_def)

lemma forget_update [simp]: "forget (st\<lparr>static_f := d\<rparr>) = forget st"
  by (simp add: forget_def)

lemma put_static: "put c (st\<lparr>static_f := d\<rparr>) = (put c st)\<lparr>static_f := d\<rparr>"
  by (simp add: put_def)

lemma fill_before_static:
  "fill_before filler width (st\<lparr>static_f := d\<rparr>) = (fill_before filler width st)\<lparr>static_f := d\<rparr>"
proof (induction filler width st rule: fill_before.induct)
  case (1 filler width st)
  show ?case
    by (subst fill_before.simps, subst (2) fill_before.simps)
       (simp add: put_static 1 del: fill_before.simps)
qed

lemma fill_after_static:
  "fill_after filler width (st\<lparr>static_f := d\<rparr>) = (fill_after filler width st)\<lparr>static_f := d\<rparr>"
proof (induction filler width st rule: fill_after.induct)
  case (1 filler width st)
  show ?case
    by (subst fill_after.simps, subst (2) fill_after.simps)
       (simp add: put_static 1 del: fill_after.simps)
qed

lemma text_loop_static:
  "text_loop s i (st\<lparr>static_f := d\<rparr>)
     = map_sum id (\<lambda>st. st\<lparr>static_f := d\<rparr>) (text_loop s i st)"
proof (induction s i st rule: text_loop.induct)
  case (1 s i st)
  show ?case
    by (subst text_loop.simps, subst (2) text_loop.simps)
       (simp add: put_static 1 Let_def id_def del: text_loop.simps split: list.split option.split)
qed

lemma emit_field_static:
  "emit_field left_align filler width s i (st\<lparr>static_f := d\<rparr>)
     = map_sum id (\<lambda>st. st\<lparr>static_f := d\<rparr>) (emit_field left_align filler width s i st)"
  unfolding emit_field_def Let_def
  by (simp add: put_static fill_before_static fill_after_static text_loop_static
      del: text_loop.simps fill_before.simps fill_after.simps
      split: list.split option.split sum.split)

lemma emit_field_forget:
  assumes "forget a = forget b"
  shows "map_sum id forget (emit_field left_align filler width s i a)
       = map_sum id forget (emit_field left_align filler width s i b)"
proof -
  from assms have "b = a\<lparr>static_f := static_f b\<rparr>" by (rule forget_eqD)
  then have "emit_field left_align filler width s i b
      = map_sum id (\<lambda>st. st\<lparr>static_f := static_f b\<rparr>) (emit_field left_align filler width s i a)"
    using emit_field_static [where st = a and d = "static_f b"] by simp
  then show ?thesis
    by (cases "emit_field left_align filler width s i a") simp_all
qed


lemma rendered_static:
  "rendered (st\<lparr>static_f := d\<rparr>) va filler r
     = map_sum id (\<lambda>(st, x). (st\<lparr>static_f := d\<rparr>, x)) (rendered st va filler r)"
  by (simp add: rendered_def split: sum.split)

lemma convert_forget_update:
  "map_sum id (map_prod forget id) (convert use_float c is_long precision filler (st\<lparr>static_f := d\<rparr>))
     = map_sum id (map_prod forget id) (convert use_float c is_long precision filler st)"
proof (cases "decode use_float c")
  case CharCommand
  then show ?thesis
    by (simp add: convert_def rendered_def forget_def split: sum.split)
next
  case StringCommand
  then show ?thesis
    by (simp add: convert_def Let_def forget_def split: sum.split)
next
  case SignedCommand
  then show ?thesis
    by (simp add: convert_def Let_def rendered_def forget_def split: sum.split)
next
  case FloatCommand
  then show ?thesis
    by (simp add: convert_def Let_def rendered_def forget_def split: sum.split)
next
  case (UnsignedCommand radix)
  then show ?thesis
    by (simp add: convert_def unsigned_common_def rendered_def forget_def split: sum.split)
next
  case DefaultCommand
  then show ?thesis
    by (simp add: convert_def rendered_def forget_def split: sum.split)
qed

lemma convert_forget:
  assumes "forget a = forget b"
  shows "map_sum id (map_prod forget id) (convert use_float c is_long precision filler a)
       = map_sum id (map_prod forget id) (convert use_float c is_long precision filler b)"
proof -
  from assms have "b = a\<lparr>static_f := static_f b\<rparr>" by (rule forget_eqD)
  then show ?thesis
    using convert_forget_update [where st = a and d = "static_f b"] by simp
qed

lemma forget_ap: "forget a = forget b \<Longrightarrow> ap a = ap b"
  by (cases a; cases b) (simp add: forget_def)

lemma forget_ap_update:
  "forget a = forget b \<Longrightarrow> forget (a\<lparr>ap := va\<rparr>) = forget (b\<lparr>ap := va\<rparr>)"
  by (cases a; cases b) (simp add: forget_def)

lemma directive_forget:
  assumes "forget a = forget b"
  shows "map_sum id (map_prod id forget) (directive use_float fmt a)
       = map_sum id (map_prod id forget) (directive use_float fmt b)"
proof (cases "parse_directive fmt (ap a)")
  case (Inl e)
  then show ?thesis using forget_ap [OF assms] by (simp add: directive_def)
next
  case (Inr r)
  then obtain left_align filler width precision is_long c cur va where
    p: "parse_directive fmt (ap a)
          = Inr (left_align, filler, width, precision, is_long, c, cur, va)"
    by (cases r) auto
  let ?ca = "convert use_float c is_long precision filler (a\<lparr>ap := va\<rparr>)"
  let ?cb = "convert use_float c is_long precision filler (b\<lparr>ap := va\<rparr>)"
  have cv: "map_sum id (map_prod forget id) ?ca = map_sum id (map_prod forget id) ?cb"
    using forget_ap_update [OF assms] by (rule convert_forget)
  show ?thesis
  proof (cases ?ca)
    case ea: (Inl e)
    with cv have "?cb = Inl e" by (cases ?cb) simp_all
    with ea p show ?thesis using forget_ap [OF assms] by (simp add: directive_def)
  next
    case ra: (Inr x)
    then obtain st1 fi s i where ca: "?ca = Inr (st1, fi, s, i)" by (cases x) auto
    with cv obtain st2 where cb: "?cb = Inr (st2, fi, s, i)" and f: "forget st1 = forget st2"
      by (cases ?cb) auto
    from emit_field_forget [OF f, of left_align fi width s i]
    show ?thesis
      using p ca cb forget_ap [OF assms]
      by (cases "emit_field left_align fi width s i st1";
          cases "emit_field left_align fi width s i st2")
         (simp_all add: directive_def)
  qed
qed


lemma chvprintf_loop_forget:
  "forget a = forget b \<Longrightarrow>
   map_sum id forget (chvprintf_loop use_float cur a)
     = map_sum id forget (chvprintf_loop use_float cur b)"
proof (induction use_float cur a arbitrary: b rule: chvprintf_loop.induct)
  case (1 use_float st)
  show ?case by simp
next
  case (2 use_float st)
  then show ?case by simp
next
  case (3 use_float c fmt st)
  show ?case
  proof (cases "c = CHR ''%''")
    case False
    have "forget (put c st) = forget (put c b)"
      using "3.prems" by (cases st; cases b) (simp add: forget_def put_def)
    from "3.IH"(1) [OF False this] False show ?thesis by simp
  next
    case True
    then have nn: "\<not> c \<noteq> CHR ''%''" by simp
    note d = directive_forget [OF "3.prems", of use_float fmt]
    show ?thesis
    proof (cases "directive use_float fmt st")
      case (Inl e)
      with d have "directive use_float fmt b = Inl e"
        by (cases "directive use_float fmt b") simp_all
      with Inl True show ?thesis by simp
    next
      case (Inr x)
      then obtain cur1 st1 where a1: "directive use_float fmt st = Inr (cur1, st1)"
        by (cases x) auto
      with d obtain st2 where b1: "directive use_float fmt b = Inr (cur1, st2)"
        and f: "forget st1 = forget st2"
        by (cases "directive use_float fmt b") auto
      from "3.IH"(2) [OF nn a1 refl f] a1 b1 True show ?thesis by simp
    qed
  qed
qed

lemma printed_forget: "printed r = printed (map_sum id forget r)"
  by (cases r) (simp_all add: printed_def forget_def)

text \<open>
  C9, as the code has it. The value the static variable \<^verbatim>\<open>f\<close> holds when a call starts,
  which is all that earlier calls leave behind, has no influence on the bytes emitted nor
  on the value returned: every call stores to \<^verbatim>\<open>f\<close> before it reads it.
\<close>

theorem chvprintf_independent_of_earlier_calls:
  "printed (chvprintf use_float f0 fmt va) = printed (chvprintf use_float f0' fmt va)"
proof -
  have "map_sum id forget (chvprintf use_float f0 fmt va)
      = map_sum id forget (chvprintf use_float f0' fmt va)"
    unfolding chvprintf_def by (rule chvprintf_loop_forget) (simp add: forget_def)
  then show ?thesis
    using printed_forget [of "chvprintf use_float f0 fmt va"]
      printed_forget [of "chvprintf use_float f0' fmt va"] by simp
qed

text \<open>
  C9, as the claim states it, fails in the float build: a call does not work on
  stack-local storage only. It stores its argument in the static variable, where the
  next call finds it.
\<close>

theorem static_f_persists_counterexample:
  "map_sum id static_f (chvprintf True (Finite 0) ''%f'' [ArgDouble (Finite 1)])
     = Inr (Finite 1)"
  by code_simp

subsection \<open>Left alignment with the zero flag\<close>

text \<open>
  C3, as the code has it. Formatting \<^verbatim>\<open>"%-05d"\<close> with the argument \<open>-7\<close> emits the five
  characters \<^verbatim>\<open>"-7000"\<close> and returns 5, in both builds: the zero flag sets the filler to
  \<^verbatim>\<open>'0'\<close>, left alignment does not reset it, and the fill behind the text consists of
  that filler.
\<close>

theorem left_align_zero_flag_fills_zeros:
  "printed (chvprintf use_float f0 ''%-05d'' [ArgInt (- 7)]) = Inr (''-7000'', 5)"
  by (cases use_float) (simp_all, code_simp+)

text \<open>
  C3, as the claim states it, fails: the output is not \<^verbatim>\<open>"-7   "\<close>.
\<close>

theorem left_align_zero_flag_counterexample:
  "printed (chvprintf False (Finite 0) ''%-05d'' [ArgInt (- 7)]) \<noteq> Inr (''-7   '', 5)"
  by code_simp

subsection \<open>Zero padding and the sign\<close>









subsection \<open>The long modifier and the type of the operand\<close>









subsection \<open>The end of the format string\<close>

text \<open>
  C10 fails on the code. A format that ends inside a directive makes the width loop read
  the terminating NUL with \<^verbatim>\<open>c = *fmt++\<close>, which leaves the cursor behind the NUL; the
  NUL is emitted as the text of an unknown conversion, and the next \<^verbatim>\<open>c = *fmt++\<close> of the
  main loop reads outside the format string.
\<close>

theorem format_ending_in_directive_overruns:
  "chvprintf use_float f0 ''abc%'' [] = Inl FormatOverrun
   \<and> chvprintf use_float f0 ''abc%5'' [] = Inl FormatOverrun"
  by (cases use_float) (simp_all, code_simp+)

subsection \<open>The capacity of the working buffer\<close>

text \<open>
  C2 fails on the code in the float build. A negative value in scientific notation with
  nine significant digits takes the sign, ten characters of mantissa, \<^verbatim>\<open>E\<close> and the
  exponent's sign: the exponent is rendered at index 13, and the integer renderer's
  scratch area ends at index \<open>13 + MAX_FILLER - 1 = 23\<close>, one behind the last cell of
  \<^verbatim>\<open>tmpbuf[2 * MAX_FILLER + 1]\<close>.
\<close>

theorem float_rendering_overflows_tmpbuf:
  "printed (chvprintf True f0 ''%f'' [ArgDouble (Finite (- 1 / 2))]) = Inl BufferOverflow"
  by code_simp

subsection \<open>Scientific notation\<close>

text \<open>
  C4 fails on the code for precision 1. The guard \<^verbatim>\<open>precision >= 1\<close> lets the precision 1
  through to \<^verbatim>\<open>pow10[precision - 2]\<close>, an index outside the table.
\<close>

theorem scientific_precision_one_overruns_pow10:
  "ftoa (replicate 23 None) 0 (Finite 1000) 1 = Inl TableOverrun
   \<and> printed (chvprintf True f0 ''%.1f'' [ArgDouble (Finite 1000)]) = Inl TableOverrun"
  by code_simp

subsection \<open>Truncation in plain notation\<close>




















end
